theory Spec2Isabelle
  imports Complex_Main "HOL-Library.Word" "HOL-Library.Signed_Division"
begin

unbundle bit_operations_syntax

section \<open>Machine types\<close>

text \<open>
  The program is written for 32-bit Windows (\<^verbatim>\<open>#include <windows.h>\<close>): \<^verbatim>\<open>short\<close> has
  16 bits, \<^verbatim>\<open>int\<close>, \<^verbatim>\<open>long\<close> and \<^verbatim>\<open>size_t\<close> have 32, integers are stored little-endian.
  A value of type \<^verbatim>\<open>int\<close> is a \<open>32 word\<close>; \<open>sint\<close> reads it as the program does, and
  \<^verbatim>\<open>printf("%d", x)\<close> prints \<open>sint x\<close>. Arithmetic wraps around, as the compiled code does.
\<close>

type_synonym byte = "8 word"
type_synonym short = "16 word"
type_synonym cint = "32 word"

definition le16 :: "byte \<Rightarrow> byte \<Rightarrow> short" where
  "le16 b0 b1 = ucast b0 OR push_bit 8 (ucast b1)"

definition le32 :: "byte \<Rightarrow> byte \<Rightarrow> byte \<Rightarrow> byte \<Rightarrow> cint" where
  "le32 b0 b1 b2 b3 =
     ucast b0 OR push_bit 8 (ucast b1) OR push_bit 16 (ucast b2) OR push_bit 24 (ucast b3)"

text \<open>The integer promotion of a \<^verbatim>\<open>short\<close> to \<^verbatim>\<open>int\<close>, and \<^verbatim>\<open>a / b\<close> on \<^verbatim>\<open>int\<close>, which
  truncates towards zero.\<close>

definition promote :: "short \<Rightarrow> cint" where
  "promote s = word_of_int (sint s)"

definition c_div :: "cint \<Rightarrow> cint \<Rightarrow> cint" where
  "c_div a b = word_of_int (sint a sdiv sint b)"

section \<open>The structures of Plexon.h\<close>

text \<open>
  \<^verbatim>\<open>Plexon.h\<close> is not among the sources. The block header is declared in the comment at the
  head of \<^verbatim>\<open>plxread.cpp\<close> (section 2C), field by field; of the file header and the slow
  channel header only the fields the program reads are kept, and the sizes of the four
  header structures are parameters (\<open>layout\<close>).
\<close>

record PL_DataBlockHeader =
  Type :: short
  UpperByteOf5ByteTimestamp :: short
  TimeStamp :: cint
  Channel :: short
  Unit :: short
  NumberOfWaveforms :: short
  NumberOfWordsInWaveform :: short

record PL_FileHeader =
  ADFrequency :: cint
  NumDSPChannels :: cint
  NumEventChannels :: cint
  NumSlowChannels :: cint

record PL_SlowChannelHeader =
  SlowChannel :: cint
  Gain :: cint
  ADFreq :: cint

record layout =
  sizeof_fh :: nat
  sizeof_chan :: nat
  sizeof_event :: nat
  sizeof_slow :: nat

text \<open>The type tags and the strobed channel, as the comment gives them: 1 - spike,
  4 - external event, 5 - a/d data; \<^verbatim>\<open>PL_StrobedExtChannel (257)\<close>.\<close>

definition PL_SingleWFType :: short where "PL_SingleWFType = 1"
definition PL_ExtEventType :: short where "PL_ExtEventType = 4"
definition PL_ADDataType :: short where "PL_ADDataType = 5"
definition PL_StrobedExtChannel :: short where "PL_StrobedExtChannel = 257"

text \<open>\<^verbatim>\<open>sizeof(db)\<close>: four bytes of \<^verbatim>\<open>long\<close> and six \<^verbatim>\<open>short\<close>s, no padding.\<close>

definition sizeof_db :: nat where "sizeof_db = 16"

text \<open>\<^verbatim>\<open>fread(&db, sizeof(db), 1, fp)\<close> overlays the structure on sixteen bytes of the file.\<close>

definition decode_db :: "byte list \<Rightarrow> PL_DataBlockHeader" where
  "decode_db bs =
     \<lparr> Type = le16 (bs ! 0) (bs ! 1),
       UpperByteOf5ByteTimestamp = le16 (bs ! 2) (bs ! 3),
       TimeStamp = le32 (bs ! 4) (bs ! 5) (bs ! 6) (bs ! 7),
       Channel = le16 (bs ! 8) (bs ! 9),
       Unit = le16 (bs ! 10) (bs ! 11),
       NumberOfWaveforms = le16 (bs ! 12) (bs ! 13),
       NumberOfWordsInWaveform = le16 (bs ! 14) (bs ! 15) \<rparr>"

section \<open>The file and the C library calls\<close>

text \<open>
  An open file is its bytes (which the program never changes), the position of the cursor
  and the end-of-file indicator. \<^verbatim>\<open>fread(p, n, 1, fp)\<close> copies the bytes that are there, up
  to \<open>n\<close>, moves the cursor past them, sets the indicator when fewer than \<open>n\<close>
  were left, and returns 1 only for a whole element; with \<open>n = 0\<close> it does nothing and
  returns 0. \<^verbatim>\<open>fseek(fp, off, SEEK_SET)\<close> fails on a negative offset and otherwise sets the
  cursor (also beyond the end of the file) and clears the indicator.
\<close>

record FILE =
  position :: nat
  eof_flag :: bool

definition fread :: "byte list \<Rightarrow> nat \<Rightarrow> FILE \<Rightarrow> byte list \<times> bool \<times> FILE" where
  "fread file n fp =
     (let got = take n (drop (position fp) file)
      in (got, n \<noteq> 0 \<and> length got = n,
          \<lparr> position = position fp + length got,
            eof_flag = (eof_flag fp \<or> length got < n) \<rparr>))"

definition fseek :: "int \<Rightarrow> FILE \<Rightarrow> FILE" where
  "fseek off fp = (if off < 0 then fp else \<lparr> position = nat off, eof_flag = False \<rparr>)"

text \<open>What stops the program, or leaves the behaviour of the C code undefined: a read that
  writes past the end of a fixed array, an index past the end of one, the two
  \<^verbatim>\<open>exit(1)\<close> of sample 4, and the division \<^verbatim>\<open>INT_MIN / -1\<close>.\<close>

datatype fault = BufferOverrun | IndexOutOfBounds | NoSlowHeader | NoFrequencyOrGain | DivideOverflow

section \<open>Reading the headers (lines 169-197)\<close>

text \<open>
  \<^verbatim>\<open>fread(channels, fh.NumDSPChannels*sizeof(PL_ChanHeader), 1, fp)\<close>: the product is
  computed in \<^verbatim>\<open>size_t\<close>, that is modulo \<open>2 ^ 32\<close>; the array holds \<open>capacity\<close> bytes.
\<close>

definition read_table :: "byte list \<Rightarrow> nat \<Rightarrow> cint \<Rightarrow> FILE \<Rightarrow> fault + FILE" where
  "read_table file capacity nbytes fp =
     (case fread file (unat nbytes) fp of
        (got, _, fp') \<Rightarrow> if capacity < length got then Inl BufferOverrun else Inr fp')"

text \<open>The file header \<open>fh\<close> is what the first \<^verbatim>\<open>fread\<close> put into the structure; its layout
  is in \<^verbatim>\<open>Plexon.h\<close>, so the decoded header is an argument.\<close>

definition read_headers :: "layout \<Rightarrow> PL_FileHeader \<Rightarrow> byte list \<Rightarrow> fault + FILE" where
  "read_headers L fh file =
     (case fread file (sizeof_fh L) \<lparr> position = 0, eof_flag = False \<rparr> of
        (_, _, fp0) \<Rightarrow>
     (case (if 0 <s NumDSPChannels fh
            then read_table file (128 * sizeof_chan L)
                   (NumDSPChannels fh * of_nat (sizeof_chan L)) fp0
            else Inr fp0) of
        Inl e \<Rightarrow> Inl e
      | Inr fp1 \<Rightarrow>
     (case (if 0 <s NumEventChannels fh
            then read_table file (512 * sizeof_event L)
                   (NumEventChannels fh * of_nat (sizeof_event L)) fp1
            else Inr fp1) of
        Inl e \<Rightarrow> Inl e
      | Inr fp2 \<Rightarrow>
        (if NumSlowChannels fh \<noteq> 0
         then read_table file (64 * sizeof_slow L)
                (NumSlowChannels fh * of_nat (sizeof_slow L)) fp2
         else Inr fp2))))"

definition datastart :: "layout \<Rightarrow> PL_FileHeader \<Rightarrow> cint" where
  "datastart L fh =
     of_nat (sizeof_fh L)
       + NumDSPChannels fh * of_nat (sizeof_chan L)
       + NumEventChannels fh * of_nat (sizeof_event L)
       + NumSlowChannels fh * of_nat (sizeof_slow L)"

text \<open>The size of the header section, as a number: the file header and the three tables,
  in the order DSP, event, analog.\<close>

definition header_bytes :: "layout \<Rightarrow> PL_FileHeader \<Rightarrow> int" where
  "header_bytes L fh =
     int (sizeof_fh L)
       + sint (NumDSPChannels fh) * int (sizeof_chan L)
       + sint (NumEventChannels fh) * int (sizeof_event L)
       + sint (NumSlowChannels fh) * int (sizeof_slow L)"

section \<open>Reading the data blocks (lines 211-216, and again in every sample)\<close>

text \<open>
  \<^verbatim>\<open>short buf[256]\<close> is 512 bytes of memory, never initialised: its contents are an
  argument wherever they matter. A read overwrites the bytes it gets and leaves the rest
  as they were; \<open>buf_at buf i\<close> is \<^verbatim>\<open>buf[i]\<close>.
\<close>

definition sizeof_buf :: nat where "sizeof_buf = 512"

definition buf_at :: "byte list \<Rightarrow> nat \<Rightarrow> short" where
  "buf_at buf i = le16 (buf ! (2 * i)) (buf ! (2 * i + 1))"

definition store :: "byte list \<Rightarrow> byte list \<Rightarrow> byte list" where
  "store got buf = got @ drop (length got) buf"

text \<open>
  One pass of the loop head and of the six lines that read the block:
  \<^verbatim>\<open>while(feof(fp) == 0 && fread(&db, sizeof(db), 1, fp) == 1){
     nbuf = 0;
     if(db.NumberOfWaveforms > 0){
       nbuf = db.NumberOfWaveforms*db.NumberOfWordsInWaveform;
       fread(buf, nbuf*2, 1, fp);
     }\<close>
  The result of the second \<^verbatim>\<open>fread\<close> is not looked at. \<^verbatim>\<open>nbuf*2\<close> becomes a \<^verbatim>\<open>size_t\<close>:
  a negative product asks for at least \<open>2 ^ 31\<close> bytes.
\<close>

datatype step = Stop | Fault fault | Block PL_DataBlockHeader cint "byte list" FILE

definition read_block :: "byte list \<Rightarrow> FILE \<Rightarrow> byte list \<Rightarrow> step" where
  "read_block file fp buf =
     (if eof_flag fp then Stop
      else case fread file sizeof_db fp of
        (hdr, ok, fp1) \<Rightarrow>
          if \<not> ok then Stop
          else let db = decode_db hdr in
            if 0 <s NumberOfWaveforms db
            then (let nbuf = promote (NumberOfWaveforms db) * promote (NumberOfWordsInWaveform db)
                  in case fread file (unat (nbuf * 2)) fp1 of
                    (got, _, fp2) \<Rightarrow>
                      if sizeof_buf < length got then Fault BufferOverrun
                      else Block db nbuf (store got buf) fp2)
            else Block db 0 buf fp1)"

text \<open>A pass that reads a block moves the cursor forward by a whole header at least, so
  the loop ends.\<close>

lemma read_block_advances:
  assumes "read_block file fp buf = Block db nbuf buf' fp'"
  shows "position fp + sizeof_db \<le> position fp'" and "position fp + sizeof_db \<le> length file"
  using assms
  by (auto simp: read_block_def fread_def Let_def sizeof_db_def
           split: if_splits prod.splits)

text \<open>
  The four loops read the blocks with the same lines and differ in what they do with
  \<open>db\<close>, \<open>nbuf\<close> and \<open>buf\<close> afterwards. \<open>blocks\<close> is the loop: it gives, pass by pass,
  the three variables as the analysis code finds them, and how the loop ended.
\<close>

type_synonym view = "PL_DataBlockHeader \<times> cint \<times> byte list"

function blocks :: "byte list \<Rightarrow> FILE \<Rightarrow> byte list \<Rightarrow> view list \<times> fault option" where
  "blocks file fp buf =
     (case read_block file fp buf of
        Stop \<Rightarrow> ([], None)
      | Fault e \<Rightarrow> ([], Some e)
      | Block db nbuf buf' fp' \<Rightarrow>
          (case blocks file fp' buf' of (vs, r) \<Rightarrow> ((db, nbuf, buf') # vs, r)))"
  by pat_completeness auto

termination blocks
proof (relation "measure (\<lambda>(file, fp, buf). length file - position fp)")
  show "wf (measure (\<lambda>(file, fp, buf). length file - position fp))" by simp
next
  fix bytes fp buf db nbuf buf' fp'
  assume "read_block bytes fp buf = Block db nbuf buf' fp'"
  from read_block_advances [OF this]
  show "((bytes, fp', buf'), (bytes, fp, buf))
          \<in> measure (\<lambda>(file, fp, buf). length file - position fp)"
    by (simp add: sizeof_db_def)
qed

declare blocks.simps [simp del]

section \<open>What the samples print\<close>

text \<open>
  A printed line keeps the numbers that \<^verbatim>\<open>%d\<close> prints, as integers, and the voltage; the
  line of a waveform keeps its values. The
  seconds, \<^verbatim>\<open>ticks/(double)fh.ADFrequency\<close>, are left out. The voltage is a \<^verbatim>\<open>double\<close> in the
  program and a real number here: \<^verbatim>\<open>buf[i]*5.\<close> and the division by 2048 are exact in
  binary floating point for every 16-bit sample, the division by the gain is rounded to the
  nearest \<^verbatim>\<open>double\<close> in the program and exact here.
\<close>

datatype line =
    SpikeLine int int
  | WaveformLine "int list"
  | EventLine int int
  | FirstPointLine int int
  | ADLine int real int

subsection \<open>Sample 1: the timestamps of a spike channel (lines 205-224)\<close>

text \<open>
  \<^verbatim>\<open>db.Channel == channel_to_extract\<close> compares a \<^verbatim>\<open>short\<close> with an \<^verbatim>\<open>int\<close>. In samples 1 and
  2, \<^verbatim>\<open>channel_to_extract = 1\<close> and \<^verbatim>\<open>unit_to_extract = 1\<close>; in sample 3,
  \<^verbatim>\<open>event_to_extract = 1\<close>; in sample 4, \<^verbatim>\<open>channel_to_extract = 0\<close>. Every sample counts its
  lines from \<^verbatim>\<open>count = 1\<close>.
\<close>

definition matches :: "short \<Rightarrow> cint \<Rightarrow> bool" where
  "matches field wanted = (promote field = wanted)"

fun sample1_loop :: "cint \<Rightarrow> view list \<Rightarrow> line list" where
  "sample1_loop count [] = []"
| "sample1_loop count ((db, nbuf, buf) # vs) =
     (if Type db = PL_SingleWFType \<and> matches (Channel db) 1 \<and> matches (Unit db) 1
      then SpikeLine (sint count) (sint (TimeStamp db)) # sample1_loop (count + 1) vs
      else sample1_loop count vs)"

text \<open>Sample 1 starts where the reading of the headers left the cursor.\<close>

definition sample1 :: "byte list \<Rightarrow> FILE \<Rightarrow> byte list \<Rightarrow> line list \<times> fault option" where
  "sample1 file fp buf =
     (case blocks file fp buf of (vs, r) \<Rightarrow> (sample1_loop 1 vs, r))"

subsection \<open>Sample 2: the waveforms of a spike channel (lines 230-257)\<close>

text \<open>
  The loop that prints the waveform, from \<open>i\<close> on:
  \<^verbatim>\<open>for(i=0; i<db.NumberOfWordsInWaveform; i++){ printf(" %d,", buf[i]); }\<close>
\<close>

function waveform_loop :: "PL_DataBlockHeader \<Rightarrow> byte list \<Rightarrow> nat \<Rightarrow> int list \<times> fault option" where
  "waveform_loop db buf i =
     (if int i < sint (NumberOfWordsInWaveform db)
      then (if 256 \<le> i then ([], Some IndexOutOfBounds)
            else case waveform_loop db buf (Suc i) of
              (ws, r) \<Rightarrow> (sint (buf_at buf i) # ws, r))
      else ([], None))"
  by pat_completeness auto
termination waveform_loop
  by (relation "measure (\<lambda>(db, buf, i). 256 - i)") auto

declare waveform_loop.simps [simp del]

fun sample2_loop :: "cint \<Rightarrow> view list \<Rightarrow> fault option \<Rightarrow> line list \<times> fault option" where
  "sample2_loop count [] r = ([], r)"
| "sample2_loop count ((db, nbuf, buf) # vs) r =
     (if Type db = PL_SingleWFType \<and> 0 <s nbuf
           \<and> matches (Channel db) 1 \<and> matches (Unit db) 1
      then (case waveform_loop db buf 0 of
              (ws, Some e) \<Rightarrow>
                ([SpikeLine (sint count) (sint (TimeStamp db)), WaveformLine ws], Some e)
            | (ws, None) \<Rightarrow>
                (case sample2_loop (count + 1) vs r of
                   (rest, r') \<Rightarrow>
                     (SpikeLine (sint count) (sint (TimeStamp db)) # WaveformLine ws # rest, r')))
      else sample2_loop count vs r)"

text \<open>Samples 2 to 4 first rewind: \<^verbatim>\<open>fseek(fp, datastart, SEEK_SET)\<close>.\<close>

definition sample2 :: "cint \<Rightarrow> byte list \<Rightarrow> FILE \<Rightarrow> byte list \<Rightarrow> line list \<times> fault option" where
  "sample2 start file fp buf =
     (case blocks file (fseek (sint start) fp) buf of (vs, r) \<Rightarrow> sample2_loop 1 vs r)"

subsection \<open>Sample 3: the timestamps of an event channel (lines 263-284)\<close>

fun sample3_loop :: "cint \<Rightarrow> view list \<Rightarrow> line list" where
  "sample3_loop count [] = []"
| "sample3_loop count ((db, nbuf, buf) # vs) =
     (if Type db = PL_ExtEventType \<and> matches (Channel db) 1
      then EventLine (sint count) (sint (TimeStamp db)) # sample3_loop (count + 1) vs
      else sample3_loop count vs)"

definition sample3 :: "cint \<Rightarrow> byte list \<Rightarrow> FILE \<Rightarrow> byte list \<Rightarrow> line list \<times> fault option" where
  "sample3 start file fp buf =
     (case blocks file (fseek (sint start) fp) buf of (vs, r) \<Rightarrow> (sample3_loop 1 vs, r))"

subsection \<open>Sample 4: the continuous data of an A/D channel (lines 294-352)\<close>

text \<open>
  \<open>slowheaders\<close> is the array of 64 headers as \<^verbatim>\<open>memset\<close> and \<^verbatim>\<open>fread\<close> left it, entry by
  entry. The search for the header of channel 0:
  \<^verbatim>\<open>for(i=0; i<fh.NumSlowChannels; i++){
     if(slowheaders[i].Channel == channel_to_extract){ header_num = i; break; } }\<close>
  \<open>None\<close> is \<^verbatim>\<open>header_num == -1\<close>.
\<close>

function find_header ::
  "(nat \<Rightarrow> PL_SlowChannelHeader) \<Rightarrow> cint \<Rightarrow> cint \<Rightarrow> nat \<Rightarrow> fault + nat option" where
  "find_header slowheaders n wanted i =
     (if int i < sint n
      then (if 64 \<le> i then Inl IndexOutOfBounds
            else if SlowChannel (slowheaders i) = wanted then Inr (Some i)
            else find_header slowheaders n wanted (Suc i))
      else Inr None)"
  by pat_completeness auto
termination find_header
  by (relation "measure (\<lambda>(slowheaders, n, wanted, i). 64 - i)") auto

declare find_header.simps [simp del]

text \<open>Lines 310-324: the two \<^verbatim>\<open>exit(1)\<close>, then
  \<^verbatim>\<open>ticks_in_adcycle = fh.ADFrequency/adfreq\<close>. The result is \<open>gain\<close>, \<open>adfreq\<close> and
  \<open>ticks_in_adcycle\<close>.\<close>

definition ad_setup ::
  "PL_FileHeader \<Rightarrow> (nat \<Rightarrow> PL_SlowChannelHeader) \<Rightarrow> fault + cint \<times> cint \<times> cint" where
  "ad_setup fh slowheaders =
     (case find_header slowheaders (NumSlowChannels fh) 0 0 of
        Inl e \<Rightarrow> Inl e
      | Inr None \<Rightarrow> Inl NoSlowHeader
      | Inr (Some header_num) \<Rightarrow>
          (let gain = Gain (slowheaders header_num);
               adfreq = ADFreq (slowheaders header_num)
           in if adfreq = 0 \<or> gain = 0 then Inl NoFrequencyOrGain
              else if sint (ADFrequency fh) = - (2 ^ 31) \<and> sint adfreq = - 1
                then Inl DivideOverflow
              else Inr (gain, adfreq, c_div (ADFrequency fh) adfreq)))"

text \<open>\<^verbatim>\<open>double v = (buf[i]*5./2048.)/(double)gain;\<close>\<close>

definition ad_voltage :: "short \<Rightarrow> cint \<Rightarrow> real" where
  "ad_voltage raw gain = (real_of_int (sint raw) * 5 / 2048) / real_of_int (sint gain)"

text \<open>
  The inner loop, from \<open>i\<close> on:
  \<^verbatim>\<open>for(i=0; i<db.NumberOfWordsInWaveform; i++){
     ts = db.TimeStamp + i*ticks_in_adcycle;
     double v = (buf[i]*5./2048.)/(double)gain;
     printf("a/d value %5d (%6.3f V) at %d ticks ...", buf[i], v, ts, ...); }\<close>
  \<open>ad_line\<close> is the line one turn prints; the loop gives the lines printed and whether
  it ran past the end of \<open>buf\<close>.
\<close>

definition ad_line :: "PL_DataBlockHeader \<Rightarrow> byte list \<Rightarrow> cint \<Rightarrow> cint \<Rightarrow> nat \<Rightarrow> line" where
  "ad_line db buf gain ticks_in_adcycle i =
     ADLine (sint (buf_at buf i)) (ad_voltage (buf_at buf i) gain)
            (sint (TimeStamp db + of_nat i * ticks_in_adcycle))"

function ad_loop ::
  "PL_DataBlockHeader \<Rightarrow> byte list \<Rightarrow> cint \<Rightarrow> cint \<Rightarrow> nat \<Rightarrow> line list \<times> fault option" where
  "ad_loop db buf gain ticks_in_adcycle i =
     (if int i < sint (NumberOfWordsInWaveform db)
      then (if 256 \<le> i then ([], Some IndexOutOfBounds)
            else case ad_loop db buf gain ticks_in_adcycle (Suc i) of
              (ls, r) \<Rightarrow> (ad_line db buf gain ticks_in_adcycle i # ls, r))
      else ([], None))"
  by pat_completeness auto
termination ad_loop
  by (relation "measure (\<lambda>(db, buf, gain, ticks_in_adcycle, i). 256 - i)") auto

declare ad_loop.simps [simp del]

fun sample4_loop ::
  "cint \<Rightarrow> cint \<Rightarrow> cint \<Rightarrow> cint \<Rightarrow> view list \<Rightarrow> fault option \<Rightarrow> line list \<times> fault option" where
  "sample4_loop gain ticks count first_timestamp [] r = ([], r)"
| "sample4_loop gain ticks count first_timestamp ((db, nbuf, buf) # vs) r =
     (if Type db = PL_ADDataType \<and> matches (Channel db) 0
      then (let first = (if first_timestamp = - 1
                         then [FirstPointLine (sint count) (sint (TimeStamp db))] else []);
                first_timestamp' = (if first_timestamp = - 1 then TimeStamp db
                                    else first_timestamp)
            in case ad_loop db buf gain ticks 0 of
                 (ls, Some e) \<Rightarrow> (first @ ls, Some e)
               | (ls, None) \<Rightarrow>
                   (case sample4_loop gain ticks (count + 1) first_timestamp' vs r of
                      (rest, r') \<Rightarrow> (first @ ls @ rest, r')))
      else sample4_loop gain ticks count first_timestamp vs r)"

definition sample4 ::
  "PL_FileHeader \<Rightarrow> (nat \<Rightarrow> PL_SlowChannelHeader) \<Rightarrow> cint \<Rightarrow> byte list \<Rightarrow> FILE \<Rightarrow> byte list
     \<Rightarrow> line list \<times> fault option" where
  "sample4 fh slowheaders start file fp buf =
     (case ad_setup fh slowheaders of
        Inl e \<Rightarrow> ([], Some e)
      | Inr (gain, adfreq, ticks) \<Rightarrow>
          (case blocks file (fseek (sint start) fp) buf of
             (vs, r) \<Rightarrow> sample4_loop gain ticks 1 (- 1) vs r))"

text \<open>The parts of a printed A/D line, and the (timestamp, voltage) pairs among printed
  lines.\<close>

fun ad_ticks :: "line \<Rightarrow> int option" where
  "ad_ticks (ADLine raw v ts) = Some ts"
| "ad_ticks _ = None"


fun ad_pair :: "line \<Rightarrow> (int \<times> real) option" where
  "ad_pair (ADLine raw v ts) = Some (ts, v)"
| "ad_pair _ = None"

definition ad_pairs :: "line list \<Rightarrow> (int \<times> real) list" where
  "ad_pairs ls = List.map_filter ad_pair ls"

section \<open>Files made of blocks\<close>

text \<open>
  To speak about the files the loop reads: a block in a file is sixteen bytes of header
  \<open>h\<close> followed by payload bytes \<open>p\<close>. \<open>nbuf_of\<close> is the value the loop leaves in
  \<^verbatim>\<open>nbuf\<close> for a header, \<open>declared_bytes\<close> the number of bytes it then asks \<^verbatim>\<open>fread\<close> for. A
  block is complete when its payload has that many bytes (and they fit \<open>buf\<close>), truncated
  when the file ends before. \<open>views_of\<close> lists what the analysis code of a sample sees
  for a sequence of blocks, \<open>buf_after\<close> is \<open>buf\<close> after them.
\<close>

definition nbuf_of :: "PL_DataBlockHeader \<Rightarrow> cint" where
  "nbuf_of db =
     (if 0 <s NumberOfWaveforms db
      then promote (NumberOfWaveforms db) * promote (NumberOfWordsInWaveform db) else 0)"

definition declared_bytes :: "PL_DataBlockHeader \<Rightarrow> nat" where
  "declared_bytes db = unat (nbuf_of db * 2)"

definition complete_block :: "byte list \<times> byte list \<Rightarrow> bool" where
  "complete_block b =
     (case b of (h, p) \<Rightarrow>
        length h = sizeof_db \<and> length p = declared_bytes (decode_db h)
          \<and> length p \<le> sizeof_buf)"

definition truncated_block :: "byte list \<times> byte list \<Rightarrow> bool" where
  "truncated_block b =
     (case b of (h, p) \<Rightarrow>
        length h = sizeof_db \<and> length p < declared_bytes (decode_db h)
          \<and> length p \<le> sizeof_buf)"

definition stream_bytes :: "(byte list \<times> byte list) list \<Rightarrow> byte list" where
  "stream_bytes bs = concat (map (\<lambda>(h, p). h @ p) bs)"

fun views_of :: "byte list \<Rightarrow> (byte list \<times> byte list) list \<Rightarrow> view list" where
  "views_of buf [] = []"
| "views_of buf ((h, p) # bs) =
     (decode_db h, nbuf_of (decode_db h), store p buf) # views_of (store p buf) bs"

fun buf_after :: "byte list \<Rightarrow> (byte list \<times> byte list) list \<Rightarrow> byte list" where
  "buf_after buf [] = buf"
| "buf_after buf ((h, p) # bs) = buf_after (store p buf) bs"

section \<open>What the specification asks for\<close>

text \<open>
  The timestamp in the words of the specification (section 4.3): the high byte shifted left
  by 32 bits, OR-ed with the low word read as unsigned.
\<close>

definition spec_timestamp40 :: "PL_DataBlockHeader \<Rightarrow> int" where
  "spec_timestamp40 db =
     push_bit 32 (take_bit 8 (uint (UpperByteOf5ByteTimestamp db))) OR uint (TimeStamp db)"

datatype spec_error = Truncated | TruncatedBlock | UnknownChannel | MissingCalibration

text \<open>
  Modelled from the spec: \<open>spikeVoltage\<close> of the SampleConverter (section 4.5). The program
  has no code that converts a spike sample to a voltage (sample 2 prints the raw values);
  the formula is the one its head comment gives in section 2C.1,
  \<^verbatim>\<open>voltage = (a_d_value*3./2048.)/gain\<close>, and a zero gain is the error the specification
  calls \<open>MissingCalibration\<close>.
\<close>

definition spikeVoltage :: "int \<Rightarrow> int \<Rightarrow> spec_error + real" where
  "spikeVoltage raw gain =
     (if gain = 0 then Inl MissingCalibration
      else Inr (real_of_int raw * 3 / 2048 / real_of_int gain))"

text \<open>
  Modelled from the spec: the decoded records of section 3. The program has no typed
  records. A record keeps the timestamp, the channel, and for a spike the unit and the
  waveform if there is one, for an event the strobed value if there is one, for analog data
  the samples; a block of unknown type is kept as it is.
\<close>

datatype decoded =
    SpikeRecord int short short "short list option"
  | EventRecord int short "short option"
  | ADSampleBlockRecord int short "short list"
  | UnknownRecord PL_DataBlockHeader "short list"

text \<open>
  Modelled from the spec: \<open>classify\<close> of the RecordDecoder (section 4.4): by type tag, and
  for events the strobed value is populated only for the reserved channel. The program has
  no decoder: sample 3 prints the timestamps of the events of channel 1 and never reads
  \<^verbatim>\<open>db.Unit\<close>. The reserved channel is \<^verbatim>\<open>PL_StrobedExtChannel (257)\<close> of the head comment.
\<close>

definition classify :: "PL_DataBlockHeader \<Rightarrow> short list \<Rightarrow> decoded" where
  "classify db payload =
     (if Type db = PL_SingleWFType
      then SpikeRecord (spec_timestamp40 db) (Channel db) (Unit db)
             (if 0 <s NumberOfWaveforms db then Some payload else None)
      else if Type db = PL_ExtEventType
      then EventRecord (spec_timestamp40 db) (Channel db)
             (if Channel db = PL_StrobedExtChannel then Some (Unit db) else None)
      else if Type db = PL_ADDataType
      then ADSampleBlockRecord (spec_timestamp40 db) (Channel db) payload
      else UnknownRecord db payload)"

section \<open>Example inputs\<close>

text \<open>A layout (sizes for the four header structures) and a file header with two DSP
  channels, one event channel and one A/D channel, at a master clock of 40 kHz.\<close>

definition plx_layout :: layout where
  "plx_layout = \<lparr> sizeof_fh = 7504, sizeof_chan = 1020, sizeof_event = 296, sizeof_slow = 296 \<rparr>"

definition fh_example :: PL_FileHeader where
  "fh_example = \<lparr> ADFrequency = 40000, NumDSPChannels = 2, NumEventChannels = 1,
                  NumSlowChannels = 1 \<rparr>"

text \<open>
  Block streams, byte by byte. A header is type, upper timestamp byte, timestamp, channel,
  unit, number of waveforms, words per waveform. \<open>first_spike\<close>: a spike of channel 1,
  unit 1 at tick 5, no waveform. \<open>cut_spike_header\<close>: a spike at tick 7 that declares one
  waveform of four words, of which the file has only the two bytes \<open>cut_spike_payload\<close>.
  \<open>spike_with_waveform\<close>: a spike at tick 9 with the waveform 10, -10, 5.
  \<open>late_spike\<close>: a spike whose upper timestamp byte is 1 and whose low word is
  \<open>0x80000000\<close>. \<open>analog_file\<close>: an A/D block of channel 0 at tick 1000 with the samples
  4096, 0 and -4096. \<open>two_waveform_file\<close>: an A/D block that declares two waveforms of two
  words, with the samples 1, 2, 3, 4.
\<close>

definition first_spike :: "byte list" where
  "first_spike = [1, 0,  0, 0,  5, 0, 0, 0,  1, 0,  1, 0,  0, 0,  0, 0]"

definition cut_spike_header :: "byte list" where
  "cut_spike_header = [1, 0,  0, 0,  7, 0, 0, 0,  1, 0,  1, 0,  1, 0,  4, 0]"

definition cut_spike_payload :: "byte list" where
  "cut_spike_payload = [0xAA, 0xBB]"

definition late_spike :: "byte list" where
  "late_spike = [1, 0,  1, 0,  0, 0, 0, 0x80,  1, 0,  1, 0,  0, 0,  0, 0]"

definition spike_with_waveform :: "byte list" where
  "spike_with_waveform = [1, 0,  0, 0,  9, 0, 0, 0,  1, 0,  1, 0,  1, 0,  3, 0,
                          10, 0,  0xF6, 0xFF,  5, 0]"

definition analog_file :: "byte list" where
  "analog_file = [5, 0,  0, 0,  0xE8, 3, 0, 0,  0, 0,  0, 0,  1, 0,  3, 0,
                  0, 0x10,  0, 0,  0, 0xF0]"

definition two_waveform_file :: "byte list" where
  "two_waveform_file = [5, 0,  0, 0,  0xE8, 3, 0, 0,  0, 0,  0, 0,  2, 0,  2, 0,
                        1, 0,  2, 0,  3, 0,  4, 0]"

text \<open>The slow channel headers of a file with one A/D channel, number 0, gain 1, sampled
  at 20 kHz; the rest of the array is as \<^verbatim>\<open>memset\<close> left it.\<close>

definition slow_example :: "nat \<Rightarrow> PL_SlowChannelHeader" where
  "slow_example i = (if i = 0 then \<lparr> SlowChannel = 0, Gain = 1, ADFreq = 20000 \<rparr>
                     else \<lparr> SlowChannel = 0, Gain = 0, ADFreq = 0 \<rparr>)"

text \<open>The same file header with a master clock of 1 kHz, slower than the A/D channel.\<close>

definition fh_slow_clock :: PL_FileHeader where
  "fh_slow_clock = \<lparr> ADFrequency = 1000, NumDSPChannels = 2, NumEventChannels = 1,
                     NumSlowChannels = 1 \<rparr>"

text \<open>Two event headers with the unit field 42: one of the strobed channel 257, one of
  channel 2.\<close>

definition strobed_event :: PL_DataBlockHeader where
  "strobed_event = \<lparr> Type = 4, UpperByteOf5ByteTimestamp = 0, TimeStamp = 100, Channel = 257,
                     Unit = 42, NumberOfWaveforms = 0, NumberOfWordsInWaveform = 0 \<rparr>"

definition plain_event :: PL_DataBlockHeader where
  "plain_event = \<lparr> Type = 4, UpperByteOf5ByteTimestamp = 0, TimeStamp = 100, Channel = 2,
                   Unit = 42, NumberOfWaveforms = 0, NumberOfWordsInWaveform = 0 \<rparr>"

definition start_of_file :: FILE where
  "start_of_file = \<lparr> position = 0, eof_flag = False \<rparr>"

definition zero_buf :: "byte list" where
  "zero_buf = replicate 512 0"

section \<open>Properties of the header section\<close>

lemma datastart_word: "datastart L fh = word_of_int (header_bytes L fh)"
  by (simp add: datastart_def header_bytes_def)

lemma datastart_sint:
  assumes "- (2 ^ 31) \<le> header_bytes L fh" "header_bytes L fh < 2 ^ 31"
  shows "sint (datastart L fh) = header_bytes L fh"
  using assms by (simp add: datastart_word signed_of_int signed_take_bit_int_eq_self)

lemma table_bytes:
  assumes "0 \<le> sint (n :: cint)" "sint n * int sz < 2 ^ 31"
  shows "unat (n * of_nat sz) = nat (sint n) * sz"
proof -
  have "int (nat (sint n) * sz) < int (2 ^ 32)"
    using assms by simp
  then have less: "nat (sint n) * sz < 2 ^ 32"
    by (simp only: of_nat_less_iff)
  have "(of_nat (nat (sint n)) :: cint) = n"
    using assms(1) by simp
  then have "n * of_nat sz = (of_nat (nat (sint n) * sz) :: cint)"
    by (simp only: of_nat_mult)
  then have "unat (n * of_nat sz) = (nat (sint n) * sz) mod 2 ^ 32"
    by (simp only: unat_of_nat) simp
  with less show ?thesis by simp
qed

lemma read_table_ok:
  assumes "position fp + n \<le> length file" "n \<le> capacity" "unat nbytes = n"
  shows "read_table file capacity nbytes fp
           = Inr \<lparr> position = position fp + n, eof_flag = eof_flag fp \<rparr>"
  using assms by (simp add: read_table_def fread_def Let_def)

text \<open>
  Claim C1. When the three counts of the file header are not negative and the tables fit
  the program's arrays (128, 512 and 64 entries), the header section is shorter than
  \<open>2 ^ 31\<close> bytes and the file holds all of it, then \<open>datastart\<close> is the size of the file
  header plus count times entry size for the DSP, event and A/D tables, in this order; the
  reads of the headers leave the cursor exactly there, with no end-of-file, which is where
  sample 1 reads its first block; and the \<^verbatim>\<open>fseek\<close> of samples 2 to 4 puts the cursor
  back to the same offset.
\<close>

theorem datastart_is_first_block_offset:
  assumes dsp: "0 \<le> sint (NumDSPChannels fh)" "sint (NumDSPChannels fh) \<le> 128"
      and event: "0 \<le> sint (NumEventChannels fh)" "sint (NumEventChannels fh) \<le> 512"
      and slow: "0 \<le> sint (NumSlowChannels fh)" "sint (NumSlowChannels fh) \<le> 64"
      and fits: "header_bytes L fh < 2 ^ 31"
      and present: "header_bytes L fh \<le> int (length file)"
  shows "sint (datastart L fh) = header_bytes L fh
       \<and> read_headers L fh file
           = Inr \<lparr> position = nat (header_bytes L fh), eof_flag = False \<rparr>
       \<and> fseek (sint (datastart L fh)) fp
           = \<lparr> position = nat (header_bytes L fh), eof_flag = False \<rparr>"
proof -
  define a where "a = nat (sint (NumDSPChannels fh))"
  define b where "b = nat (sint (NumEventChannels fh))"
  define c where "c = nat (sint (NumSlowChannels fh))"
  have hb: "header_bytes L fh
              = int (sizeof_fh L + a * sizeof_chan L + b * sizeof_event L + c * sizeof_slow L)"
    using dsp event slow by (simp add: header_bytes_def a_def b_def c_def)
  have nonneg: "0 \<le> header_bytes L fh" by (simp add: hb)
  have ds: "sint (datastart L fh) = header_bytes L fh"
    using nonneg fits by (intro datastart_sint) simp_all
  have "int (sizeof_fh L + a * sizeof_chan L + b * sizeof_event L + c * sizeof_slow L)
          < int (2 ^ 31)"
    using fits unfolding hb by simp
  then have tot:
    "sizeof_fh L + a * sizeof_chan L + b * sizeof_event L + c * sizeof_slow L < 2 ^ 31"
    by (simp only: of_nat_less_iff)
  have small: "int (a * sizeof_chan L) < 2 ^ 31" "int (b * sizeof_event L) < 2 ^ 31"
     "int (c * sizeof_slow L) < 2 ^ 31"
    using tot by (simp_all only: of_nat_less_numeral_power_cancel_iff)
  have ua: "unat (NumDSPChannels fh * of_nat (sizeof_chan L)) = a * sizeof_chan L"
    unfolding a_def using dsp(1) small(1) by (intro table_bytes) (simp_all add: a_def)
  have ub: "unat (NumEventChannels fh * of_nat (sizeof_event L)) = b * sizeof_event L"
    unfolding b_def using event(1) small(2) by (intro table_bytes) (simp_all add: b_def)
  have uc: "unat (NumSlowChannels fh * of_nat (sizeof_slow L)) = c * sizeof_slow L"
    unfolding c_def using slow(1) small(3) by (intro table_bytes) (simp_all add: c_def)
  have len:
    "sizeof_fh L + a * sizeof_chan L + b * sizeof_event L + c * sizeof_slow L \<le> length file"
    using present unfolding hb by (simp only: of_nat_le_iff)
  have caps: "a \<le> 128" "b \<le> 512" "c \<le> 64"
    using dsp event slow by (simp_all add: a_def b_def c_def)
  have zero: "\<not> 0 <s NumDSPChannels fh \<Longrightarrow> a = 0"
     "\<not> 0 <s NumEventChannels fh \<Longrightarrow> b = 0"
     "NumSlowChannels fh = 0 \<Longrightarrow> c = 0"
    by (simp_all add: word_sless_alt a_def b_def c_def)
  let ?fp0 = "\<lparr> position = sizeof_fh L, eof_flag = False \<rparr>"
  let ?fp1 = "\<lparr> position = sizeof_fh L + a * sizeof_chan L, eof_flag = False \<rparr>"
  let ?fp2 = "\<lparr> position = sizeof_fh L + a * sizeof_chan L + b * sizeof_event L,
                eof_flag = False \<rparr>"
  let ?fp3 = "\<lparr> position = sizeof_fh L + a * sizeof_chan L + b * sizeof_event L
                             + c * sizeof_slow L,
                eof_flag = False \<rparr>"
  have r0: "fread file (sizeof_fh L) \<lparr> position = 0, eof_flag = False \<rparr>
              = (take (sizeof_fh L) file, sizeof_fh L \<noteq> 0, ?fp0)"
    using len by (simp add: fread_def Let_def)
  have r1: "(if 0 <s NumDSPChannels fh
             then read_table file (128 * sizeof_chan L)
                    (NumDSPChannels fh * of_nat (sizeof_chan L)) ?fp0
             else Inr ?fp0) = Inr ?fp1"
    using len caps(1) zero(1) by (simp add: read_table_ok [where n = "a * sizeof_chan L"] ua)
  have r2: "(if 0 <s NumEventChannels fh
             then read_table file (512 * sizeof_event L)
                    (NumEventChannels fh * of_nat (sizeof_event L)) ?fp1
             else Inr ?fp1) = Inr ?fp2"
    using len caps(2) zero(2) by (simp add: read_table_ok [where n = "b * sizeof_event L"] ub)
  have r3: "(if NumSlowChannels fh \<noteq> 0
             then read_table file (64 * sizeof_slow L)
                    (NumSlowChannels fh * of_nat (sizeof_slow L)) ?fp2
             else Inr ?fp2) = Inr ?fp3"
    using len caps(3) zero(3) by (simp add: read_table_ok [where n = "c * sizeof_slow L"] uc)
  have rh: "read_headers L fh file = Inr ?fp3"
    unfolding read_headers_def r0 prod.case r1 sum.case r2 r3 ..
  have hn: "nat (header_bytes L fh)
              = sizeof_fh L + a * sizeof_chan L + b * sizeof_event L + c * sizeof_slow L"
    by (simp only: hb nat_int)
  have sk: "fseek (sint (datastart L fh)) fp = ?fp3"
    using nonneg by (simp add: fseek_def ds hn)
  show ?thesis
    using ds rh sk by (simp only: hn simp_thms)
qed

theorem datastart_is_first_block_offset_witness:
  "header_bytes plx_layout fh_example = 10136
   \<and> sint (datastart plx_layout fh_example) = 10136
   \<and> read_headers plx_layout fh_example (replicate 10136 0 @ [1, 0])
         = Inr \<lparr> position = 10136, eof_flag = False \<rparr>
   \<and> fseek (sint (datastart plx_layout fh_example)) \<lparr> position = 10138, eof_flag = True \<rparr>
         = \<lparr> position = 10136, eof_flag = False \<rparr>"
proof -
  have hb: "header_bytes plx_layout fh_example = 10136"
    by (simp add: header_bytes_def plx_layout_def fh_example_def)
  have counts:
    "0 \<le> sint (NumDSPChannels fh_example)" "sint (NumDSPChannels fh_example) \<le> 128"
    "0 \<le> sint (NumEventChannels fh_example)" "sint (NumEventChannels fh_example) \<le> 512"
    "0 \<le> sint (NumSlowChannels fh_example)" "sint (NumSlowChannels fh_example) \<le> 64"
    by (simp_all add: fh_example_def)
  have fits: "header_bytes plx_layout fh_example < 2 ^ 31"
    by (simp add: hb)
  have present:
    "header_bytes plx_layout fh_example \<le> int (length (replicate 10136 (0 :: byte) @ [1, 0]))"
    by (simp add: hb)
  from datastart_is_first_block_offset [OF counts fits present,
      where fp = "\<lparr> position = 10138, eof_flag = True \<rparr>"]
  show ?thesis
    unfolding hb by (elim conjE) simp
qed

section \<open>Properties of the block stream\<close>

subsection \<open>One pass over one block\<close>

lemma promote_product:
  "promote a * promote b * 2 = (word_of_int (sint a * sint b * 2) :: cint)"
  by (simp add: promote_def)

lemma payload_bytes:
  assumes "0 \<le> sint a * sint b" "sint a * sint b \<le> 256"
  shows "unat (promote a * promote b * 2) = 2 * nat (sint a * sint b)"
proof -
  define k where "k = nat (sint a * sint b)"
  have k: "sint a * sint b = int k" using assms(1) by (simp add: k_def)
  have "k \<le> 256" using assms(2) k by simp
  then have "2 * k < 2 ^ 32" by simp
  have "promote a * promote b * 2 = (of_nat (2 * k) :: cint)"
    by (simp only: promote_product k) simp
  then have "unat (promote a * promote b * 2) = (2 * k) mod 2 ^ 32"
    by (simp only: unat_of_nat) simp
  with \<open>2 * k < 2 ^ 32\<close> show ?thesis by (simp add: k_def)
qed

text \<open>
  Claim C5. Where the loop stands before a whole block header and the end-of-file
  indicator is clear: if the header declares a positive number of waveforms and a
  non-negative number of words per waveform, the product \<open>n\<close> fits \<^verbatim>\<open>buf\<close> (256 samples,
  past which the read would overrun the array) and
  the file holds the \<open>2 * n\<close> payload bytes, then the pass reads the header and exactly
  these \<open>n\<close> 16-bit samples, into \<^verbatim>\<open>buf\<close>, and leaves the cursor \<open>sizeof_db + 2 * n\<close> bytes
  further, where the next pass reads the next header. If the number of waveforms is 0
  (or negative), no payload byte is read, \<^verbatim>\<open>buf\<close> is untouched and the cursor advances by
  the size of the header only.
\<close>

theorem block_consumes_declared_payload:
  assumes flag: "\<not> eof_flag fp"
      and header: "position fp + sizeof_db \<le> length file"
      and db: "db = decode_db (take sizeof_db (drop (position fp) file))"
      and n: "n = nat (sint (NumberOfWaveforms db) * sint (NumberOfWordsInWaveform db))"
  shows "(0 < sint (NumberOfWaveforms db) \<longrightarrow> 0 \<le> sint (NumberOfWordsInWaveform db)
            \<longrightarrow> n \<le> 256 \<longrightarrow> position fp + sizeof_db + 2 * n \<le> length file
            \<longrightarrow> read_block file fp buf
                  = Block db (of_nat n)
                      (store (take (2 * n) (drop (position fp + sizeof_db) file)) buf)
                      \<lparr> position = position fp + sizeof_db + 2 * n, eof_flag = False \<rparr>)
       \<and> (sint (NumberOfWaveforms db) \<le> 0
            \<longrightarrow> read_block file fp buf
                  = Block db 0 buf \<lparr> position = position fp + sizeof_db, eof_flag = False \<rparr>)"
proof -
  let ?hdr = "take sizeof_db (drop (position fp) file)"
  have r1: "fread file sizeof_db fp
              = (?hdr, True, \<lparr> position = position fp + sizeof_db, eof_flag = False \<rparr>)"
    using flag header by (simp add: fread_def Let_def sizeof_db_def)
  have zero: "sint (NumberOfWaveforms db) \<le> 0 \<Longrightarrow> read_block file fp buf
       = Block db 0 buf \<lparr> position = position fp + sizeof_db, eof_flag = False \<rparr>"
    using flag by (simp add: read_block_def r1 db [symmetric] word_sless_alt)
  have pos: "read_block file fp buf
       = Block db (of_nat n) (store (take (2 * n) (drop (position fp + sizeof_db) file)) buf)
           \<lparr> position = position fp + sizeof_db + 2 * n, eof_flag = False \<rparr>"
    if w: "0 < sint (NumberOfWaveforms db)" and v: "0 \<le> sint (NumberOfWordsInWaveform db)"
      and cap: "n \<le> 256" and present: "position fp + sizeof_db + 2 * n \<le> length file"
  proof -
    have nonneg: "0 \<le> sint (NumberOfWaveforms db) * sint (NumberOfWordsInWaveform db)"
      using w v by simp
    have le: "sint (NumberOfWaveforms db) * sint (NumberOfWordsInWaveform db) \<le> 256"
      using cap nonneg by (simp add: n)
    have sz: "unat (promote (NumberOfWaveforms db) * promote (NumberOfWordsInWaveform db) * 2) = 2 * n"
      unfolding n by (rule payload_bytes [OF nonneg le])
    have nb: "promote (NumberOfWaveforms db) * promote (NumberOfWordsInWaveform db) = of_nat n"
      using nonneg by (simp add: promote_def n)
    have sz': "unat (of_nat n * 2 :: cint) = 2 * n"
      using sz by (simp only: nb)
    have r2: "fread file (2 * n) \<lparr> position = position fp + sizeof_db, eof_flag = False \<rparr>
        = (take (2 * n) (drop (position fp + sizeof_db) file), n \<noteq> 0,
           \<lparr> position = position fp + sizeof_db + 2 * n, eof_flag = False \<rparr>)"
      using present by (simp add: fread_def Let_def)
    show ?thesis
      using flag w cap present
      by (simp add: read_block_def r1 db [symmetric] word_sless_alt Let_def sz' r2 nb sizeof_buf_def)
  qed
  show ?thesis using zero pos by blast
qed

theorem block_consumes_declared_payload_witness:
  "read_block analog_file start_of_file zero_buf
     = Block (decode_db analog_file) 3 (store (drop 16 analog_file) zero_buf)
         \<lparr> position = 22, eof_flag = False \<rparr>
   \<and> read_block (first_spike @ analog_file) start_of_file zero_buf
     = Block (decode_db first_spike) 0 zero_buf \<lparr> position = 16, eof_flag = False \<rparr>"
proof -
  let ?db = "decode_db (take sizeof_db (drop (position start_of_file) analog_file))"
  let ?n = "nat (sint (NumberOfWaveforms ?db) * sint (NumberOfWordsInWaveform ?db))"
  have flag: "\<not> eof_flag start_of_file" by (simp add: start_of_file_def)
  have h1: "position start_of_file + sizeof_db \<le> length analog_file" by code_simp
  have p1: "0 < sint (NumberOfWaveforms ?db)" "0 \<le> sint (NumberOfWordsInWaveform ?db)"
    "?n \<le> 256" "position start_of_file + sizeof_db + 2 * ?n \<le> length analog_file"
    by code_simp+
  have v1: "Block ?db (of_nat ?n)
              (store (take (2 * ?n) (drop (position start_of_file + sizeof_db) analog_file)) zero_buf)
              \<lparr> position = position start_of_file + sizeof_db + 2 * ?n, eof_flag = False \<rparr>
            = Block (decode_db analog_file) 3 (store (drop 16 analog_file) zero_buf)
                \<lparr> position = 22, eof_flag = False \<rparr>"
    by code_simp
  from block_consumes_declared_payload [OF flag h1 refl refl, of zero_buf] p1
  have "read_block analog_file start_of_file zero_buf
          = Block ?db (of_nat ?n)
              (store (take (2 * ?n) (drop (position start_of_file + sizeof_db) analog_file)) zero_buf)
              \<lparr> position = position start_of_file + sizeof_db + 2 * ?n, eof_flag = False \<rparr>"
    by blast
  from this v1 have first: "read_block analog_file start_of_file zero_buf
     = Block (decode_db analog_file) 3 (store (drop 16 analog_file) zero_buf)
         \<lparr> position = 22, eof_flag = False \<rparr>"
    by (rule trans)
  let ?db2 = "decode_db (take sizeof_db (drop (position start_of_file) (first_spike @ analog_file)))"
  have h2: "position start_of_file + sizeof_db \<le> length (first_spike @ analog_file)" by code_simp
  have p2: "sint (NumberOfWaveforms ?db2) \<le> 0" by code_simp
  have v2: "Block ?db2 0 zero_buf \<lparr> position = position start_of_file + sizeof_db, eof_flag = False \<rparr>
      = Block (decode_db first_spike) 0 zero_buf \<lparr> position = 16, eof_flag = False \<rparr>"
    by code_simp
  from block_consumes_declared_payload [OF flag h2 refl refl, of zero_buf] p2
  have "read_block (first_spike @ analog_file) start_of_file zero_buf
      = Block ?db2 0 zero_buf \<lparr> position = position start_of_file + sizeof_db, eof_flag = False \<rparr>"
    by blast
  from this v2 have second: "read_block (first_spike @ analog_file) start_of_file zero_buf
     = Block (decode_db first_spike) 0 zero_buf \<lparr> position = 16, eof_flag = False \<rparr>"
    by (rule trans)
  from first second show ?thesis by (intro conjI)
qed

text \<open>A block of more than 256 samples whose payload is in the file: the read runs past the
  end of \<open>buf\<close>.\<close>

lemma short_product:
  fixes a b :: short
  assumes "0 \<le> sint a" "0 \<le> sint b"
  shows "sint a * sint b < 2 ^ 30"
proof -
  have "sint a < 2 ^ 15" "sint b < 2 ^ 15"
    using sint_lt [of a] sint_lt [of b] by simp_all
  then have "sint a \<le> 32767" "sint b \<le> 32767" by simp_all
  with assms have "sint a * sint b \<le> 32767 * 32767"
    by (intro mult_mono) simp_all
  then show ?thesis by simp
qed

lemma payload_bytes_general:
  fixes a b :: short
  assumes "0 \<le> sint a" "0 \<le> sint b"
  shows "unat (promote a * promote b * 2) = 2 * nat (sint a * sint b)"
proof -
  define k where "k = nat (sint a * sint b)"
  have k: "sint a * sint b = int k" using assms by (simp add: k_def)
  have "int k < 2 ^ 30" using short_product [OF assms] k by simp
  then have "2 * k < 2 ^ 32" by simp
  have "promote a * promote b * 2 = (of_nat (2 * k) :: cint)"
    by (simp only: promote_product k) simp
  then have "unat (promote a * promote b * 2) = (2 * k) mod 2 ^ 32"
    by (simp only: unat_of_nat) simp
  with \<open>2 * k < 2 ^ 32\<close> show ?thesis by (simp add: k_def)
qed

lemma read_block_overrun:
  assumes flag: "\<not> eof_flag fp"
      and header: "position fp + sizeof_db \<le> length file"
      and db: "db = decode_db (take sizeof_db (drop (position fp) file))"
      and n: "n = nat (sint (NumberOfWaveforms db) * sint (NumberOfWordsInWaveform db))"
      and w: "0 < sint (NumberOfWaveforms db)" and v: "0 \<le> sint (NumberOfWordsInWaveform db)"
      and big: "256 < n"
      and present: "position fp + sizeof_db + 2 * n \<le> length file"
  shows "read_block file fp buf = Fault BufferOverrun"
proof -
  let ?hdr = "take sizeof_db (drop (position fp) file)"
  have r1: "fread file sizeof_db fp
              = (?hdr, True, \<lparr> position = position fp + sizeof_db, eof_flag = False \<rparr>)"
    using flag header by (simp add: fread_def Let_def sizeof_db_def)
  have sz: "unat (promote (NumberOfWaveforms db) * promote (NumberOfWordsInWaveform db) * 2) = 2 * n"
    unfolding n using w v by (intro payload_bytes_general) simp_all
  have r2: "fread file (2 * n) \<lparr> position = position fp + sizeof_db, eof_flag = False \<rparr>
        = (take (2 * n) (drop (position fp + sizeof_db) file), n \<noteq> 0,
           \<lparr> position = position fp + sizeof_db + 2 * n, eof_flag = False \<rparr>)"
    using present by (simp add: fread_def Let_def)
  show ?thesis
    using flag w big present
    by (simp add: read_block_def r1 db [symmetric] word_sless_alt Let_def sz r2 sizeof_buf_def)
qed

subsection \<open>The loop over a sequence of blocks\<close>

lemma store_Nil [simp]: "store [] buf = buf"
  by (simp add: store_def)

lemma fread_at:
  "fread (pre @ got @ rest) (length got) \<lparr> position = length pre, eof_flag = e \<rparr>
     = (got, got \<noteq> [], \<lparr> position = length pre + length got, eof_flag = e \<rparr>)"
  by (simp add: fread_def Let_def)

lemma fread_short:
  assumes "length got < n"
  shows "fread (pre @ got) n \<lparr> position = length pre, eof_flag = e \<rparr>
     = (got, False, \<lparr> position = length pre + length got, eof_flag = True \<rparr>)"
  using assms by (simp add: fread_def Let_def)

lemma read_block_complete:
  assumes "complete_block (h, p)"
  shows "read_block (pre @ h @ p @ rest) \<lparr> position = length pre, eof_flag = False \<rparr> buf
           = Block (decode_db h) (nbuf_of (decode_db h)) (store p buf)
               \<lparr> position = length (pre @ h @ p), eof_flag = False \<rparr>"
proof -
  from assms have h: "length h = sizeof_db" and p: "length p = declared_bytes (decode_db h)"
    and cap: "length p \<le> sizeof_buf"
    by (simp_all add: complete_block_def)
  have hne: "h \<noteq> []" using h by (auto simp: sizeof_db_def)
  have r1: "fread (pre @ h @ p @ rest) sizeof_db \<lparr> position = length pre, eof_flag = False \<rparr>
      = (h, True, \<lparr> position = length pre + length h, eof_flag = False \<rparr>)"
    using fread_at [of pre h "p @ rest" False] hne by (simp add: h)
  show ?thesis
  proof (cases "0 <s NumberOfWaveforms (decode_db h)")
    case True
    then have nb: "nbuf_of (decode_db h) = promote (NumberOfWaveforms (decode_db h)) * promote (NumberOfWordsInWaveform (decode_db h))"
      by (simp add: nbuf_of_def)
    have r2: "fread (pre @ h @ p @ rest) (unat (nbuf_of (decode_db h) * 2)) \<lparr> position = length pre + length h, eof_flag = False \<rparr>
      = (p, p \<noteq> [], \<lparr> position = length (pre @ h) + length p, eof_flag = False \<rparr>)"
      using fread_at [of "pre @ h" p rest False] p by (simp add: declared_bytes_def)
    show ?thesis
      using True cap by (simp add: read_block_def r1 Let_def r2 nb [symmetric])
  next
    case False
    then have "nbuf_of (decode_db h) = 0" by (simp add: nbuf_of_def)
    with p have "p = []" by (simp add: declared_bytes_def)
    with False r1 show ?thesis
      by (simp add: read_block_def Let_def nbuf_of_def)
  qed
qed

lemma blocks_complete:
  assumes "\<forall>b \<in> set bs. complete_block b"
  shows "blocks (pre @ stream_bytes bs @ rest) \<lparr> position = length pre, eof_flag = False \<rparr> buf
     = (case blocks (pre @ stream_bytes bs @ rest)
               \<lparr> position = length (pre @ stream_bytes bs), eof_flag = False \<rparr> (buf_after buf bs) of
          (vs, r) \<Rightarrow> (views_of buf bs @ vs, r))"
  using assms
proof (induction bs arbitrary: pre buf)
  case Nil
  then show ?case by (simp add: stream_bytes_def)
next
  case (Cons b bs)
  obtain h p where b: "b = (h, p)" by (cases b)
  from Cons.prems b have cb: "complete_block (h, p)" and rest: "\<forall>b \<in> set bs. complete_block b"
    by simp_all
  have fl: "pre @ stream_bytes (b # bs) @ rest = pre @ h @ p @ stream_bytes bs @ rest"
    by (simp add: stream_bytes_def b)
  have fl': "pre @ stream_bytes (b # bs) @ rest = (pre @ h @ p) @ stream_bytes bs @ rest"
    by (simp add: stream_bytes_def b)
  have step: "read_block (pre @ stream_bytes (b # bs) @ rest) \<lparr> position = length pre, eof_flag = False \<rparr> buf
           = Block (decode_db h) (nbuf_of (decode_db h)) (store p buf)
               \<lparr> position = length (pre @ h @ p), eof_flag = False \<rparr>"
    unfolding fl by (rule read_block_complete [OF cb])
  have len: "length (pre @ stream_bytes (b # bs)) = length ((pre @ h @ p) @ stream_bytes bs)"
    by (simp add: stream_bytes_def b)
  show ?case
    apply (subst blocks.simps)
    apply (simp only: step step.case)
    apply (simp only: fl' len)
    apply (subst Cons.IH [OF rest, of "pre @ h @ p" "store p buf"])
    apply (simp add: b split: prod.splits)
    done
qed

lemma blocks_at_eof_flag: "blocks file \<lparr> position = n, eof_flag = True \<rparr> buf = ([], None)"
  by (subst blocks.simps) (simp add: read_block_def)

lemma blocks_short_header:
  assumes "length rest < sizeof_db"
  shows "blocks (pre @ rest) \<lparr> position = length pre, eof_flag = False \<rparr> buf = ([], None)"
proof -
  have "read_block (pre @ rest) \<lparr> position = length pre, eof_flag = False \<rparr> buf = Stop"
    using assms by (simp add: read_block_def fread_def Let_def)
  then show ?thesis
    by (subst blocks.simps) simp
qed

lemma read_block_truncated:
  assumes "truncated_block (h, part)"
  shows "read_block (pre @ h @ part) \<lparr> position = length pre, eof_flag = False \<rparr> buf
           = Block (decode_db h) (nbuf_of (decode_db h)) (store part buf)
               \<lparr> position = length (pre @ h @ part), eof_flag = True \<rparr>"
proof -
  from assms have h: "length h = sizeof_db" and p: "length part < declared_bytes (decode_db h)"
    and cap: "length part \<le> sizeof_buf"
    by (simp_all add: truncated_block_def)
  have hne: "h \<noteq> []" using h by (auto simp: sizeof_db_def)
  have r1: "fread (pre @ h @ part) sizeof_db \<lparr> position = length pre, eof_flag = False \<rparr>
      = (h, True, \<lparr> position = length pre + length h, eof_flag = False \<rparr>)"
    using fread_at [of pre h part False] hne by (simp add: h)
  have pos: "0 <s NumberOfWaveforms (decode_db h)"
  proof (rule ccontr)
    assume "\<not> 0 <s NumberOfWaveforms (decode_db h)"
    then have "declared_bytes (decode_db h) = 0"
      by (simp add: declared_bytes_def nbuf_of_def)
    with p show False by simp
  qed
  then have nb: "promote (NumberOfWaveforms (decode_db h)) * promote (NumberOfWordsInWaveform (decode_db h)) = nbuf_of (decode_db h)"
    by (simp add: nbuf_of_def)
  have r2: "fread (pre @ h @ part) (unat (nbuf_of (decode_db h) * 2)) \<lparr> position = length pre + length h, eof_flag = False \<rparr>
      = (part, False, \<lparr> position = length (pre @ h) + length part, eof_flag = True \<rparr>)"
    using fread_short [of part "unat (nbuf_of (decode_db h) * 2)" "pre @ h" False] p
    by (simp add: declared_bytes_def)
  show ?thesis
    using pos cap by (simp add: read_block_def r1 Let_def nb r2)
qed

lemma blocks_truncated:
  assumes "truncated_block (h, part)"
  shows "blocks (pre @ h @ part) \<lparr> position = length pre, eof_flag = False \<rparr> buf
           = ([(decode_db h, nbuf_of (decode_db h), store part buf)], None)"
  by (subst blocks.simps)
     (simp only: read_block_truncated [OF assms] step.case blocks_at_eof_flag prod.case append_Nil)

lemma blocks_of_complete_stream:
  assumes "\<forall>b \<in> set bs. complete_block b"
  shows "blocks (pre @ stream_bytes bs) \<lparr> position = length pre, eof_flag = False \<rparr> buf
           = (views_of buf bs, None)"
proof -
  have "blocks ((pre @ stream_bytes bs) @ []) \<lparr> position = length (pre @ stream_bytes bs), eof_flag = False \<rparr> (buf_after buf bs) = ([], None)"
    by (rule blocks_short_header) (simp add: sizeof_db_def)
  with blocks_complete [OF assms, of pre "[]" buf] show ?thesis
    by simp
qed

lemma blocks_of_truncated_stream:
  assumes "\<forall>b \<in> set bs. complete_block b" "truncated_block (h, part)"
  shows "blocks (pre @ stream_bytes bs @ h @ part) \<lparr> position = length pre, eof_flag = False \<rparr> buf
           = (views_of buf bs @ [(decode_db h, nbuf_of (decode_db h), store part (buf_after buf bs))], None)"
proof -
  have "blocks ((pre @ stream_bytes bs) @ h @ part) \<lparr> position = length (pre @ stream_bytes bs), eof_flag = False \<rparr> (buf_after buf bs)
      = ([(decode_db h, nbuf_of (decode_db h), store part (buf_after buf bs))], None)"
    by (rule blocks_truncated [OF assms(2)])
  with blocks_complete [OF assms(1), of pre "h @ part" buf] show ?thesis
    by simp
qed

lemma sample1_loop_append:
  "sample1_loop c (xs @ ys)
     = sample1_loop c xs @ sample1_loop (c + of_nat (length (sample1_loop c xs))) ys"
  by (induction xs arbitrary: c) (auto simp: algebra_simps)

text \<open>
  Claim C3, as the program has it. The file ends in a block whose header is whole and
  declares more payload than is left; before it come any number of complete blocks. Sample
  1 prints the lines of the complete blocks, as it does for the file without the last
  block, and then treats the truncated block like any other: if its type, channel and unit
  are the ones looked for, its timestamp is printed with the next count. Nothing is
  signalled: the loop ends at the end of the file with no fault.
\<close>

theorem truncated_trailing_block:
  assumes complete: "\<forall>b \<in> set bs. complete_block b"
      and truncated: "truncated_block (h, part)"
  shows "sample1 (pre @ stream_bytes bs @ h @ part) \<lparr> position = length pre, eof_flag = False \<rparr> buf
      = (let before = fst (sample1 (pre @ stream_bytes bs) \<lparr> position = length pre, eof_flag = False \<rparr> buf);
             db = decode_db h
         in (before @
              (if Type db = PL_SingleWFType \<and> matches (Channel db) 1 \<and> matches (Unit db) 1
               then [SpikeLine (sint (1 + of_nat (length before) :: cint)) (sint (TimeStamp db))]
               else []),
             None))"
  by (simp add: sample1_def blocks_of_truncated_stream [OF assms]
        blocks_of_complete_stream [OF complete] sample1_loop_append Let_def)

theorem truncated_trailing_block_witness:
  "complete_block (first_spike, [])
   \<and> truncated_block (cut_spike_header, cut_spike_payload)
   \<and> sample1 ([] @ stream_bytes [(first_spike, [])] @ cut_spike_header @ cut_spike_payload)
         \<lparr> position = length ([] :: byte list), eof_flag = False \<rparr> zero_buf
       = ([SpikeLine 1 5, SpikeLine 2 7], None)"
proof -
  have c1: "complete_block (first_spike, [])"
    by code_simp
  then have c: "\<forall>b \<in> set [(first_spike, [])]. complete_block b"
    by simp
  have t: "truncated_block (cut_spike_header, cut_spike_payload)"
    by code_simp
  have v: "(let before = fst (sample1 ([] @ stream_bytes [(first_spike, [])])
                                 \<lparr> position = length ([] :: byte list), eof_flag = False \<rparr> zero_buf);
                db = decode_db cut_spike_header
            in (before @
                 (if Type db = PL_SingleWFType \<and> matches (Channel db) 1 \<and> matches (Unit db) 1
                  then [SpikeLine (sint (1 + of_nat (length before) :: cint)) (sint (TimeStamp db))]
                  else []),
                None :: fault option))
           = ([SpikeLine 1 5, SpikeLine 2 7], None)"
    by code_simp
  from truncated_trailing_block [OF c t, of "[]" zero_buf] v
  have "sample1 ([] @ stream_bytes [(first_spike, [])] @ cut_spike_header @ cut_spike_payload)
         \<lparr> position = length ([] :: byte list), eof_flag = False \<rparr> zero_buf
       = ([SpikeLine 1 5, SpikeLine 2 7], None)"
    by (rule trans)
  with c1 t show ?thesis by (intro conjI)
qed

text \<open>
  The claim C3 as stated fails: on the file that is just the truncated spike block, sample 1
  prints the spike of the truncated block and ends without any signal.
\<close>

theorem truncated_block_still_yields_record:
  "truncated_block (cut_spike_header, cut_spike_payload)
   \<and> sample1 (cut_spike_header @ cut_spike_payload) start_of_file zero_buf
       = ([SpikeLine 1 7], None)"
  by code_simp

section \<open>Properties of sample 4\<close>

text \<open>The inner loop in closed form: one line for each index below the number of words,
  up to the 256 entries of \<open>buf\<close>.\<close>

lemma ad_loop_closed:
  "i \<le> 256 \<Longrightarrow>
   ad_loop db buf gain ticks i
     = (map (ad_line db buf gain ticks) [i..<min (nat (sint (NumberOfWordsInWaveform db))) 256],
        if 256 < sint (NumberOfWordsInWaveform db) then Some IndexOutOfBounds else None)"
proof (induction db buf gain ticks i rule: ad_loop.induct)
  case (1 db buf gain ticks i)
  let ?n = "sint (NumberOfWordsInWaveform db)"
  show ?case
  proof (cases "int i < ?n")
    case False
    with "1.prems" show ?thesis
      by (subst ad_loop.simps) simp
  next
    case more: True
    show ?thesis
    proof (cases "256 \<le> i")
      case True
      with more "1.prems" show ?thesis
        by (subst ad_loop.simps) simp
    next
      case False
      then have "Suc i \<le> 256" by simp
      from "1.IH" [OF more False this] more False show ?thesis
        by (subst ad_loop.simps) (simp add: upt_conv_Cons)
    qed
  qed
qed

lemma ad_setup_Inr:
  assumes "ad_setup fh slowheaders = Inr (gain, adfreq, ticks)"
  shows "gain \<noteq> 0" "adfreq \<noteq> 0" "ticks = c_div (ADFrequency fh) adfreq"
  using assms
  by (auto simp: ad_setup_def Let_def split: sum.splits option.splits if_splits)


lemma sdiv_small: "0 \<le> a \<Longrightarrow> a < b \<Longrightarrow> (a :: int) sdiv b = 0"
  by (simp add: signed_divide_int_def)





text \<open>The quotient of C is 0 exactly when the dividend is the smaller one in absolute
  value.\<close>

lemma sdiv_zero_iff:
  fixes a b :: int
  assumes "b \<noteq> 0"
  shows "a sdiv b = 0 \<longleftrightarrow> \<bar>a\<bar> < \<bar>b\<bar>"
proof -
  have pos: "0 < \<bar>b\<bar>" using assms by simp
  have "0 \<le> \<bar>a\<bar> div \<bar>b\<bar>"
    using pos by (simp add: pos_imp_zdiv_nonneg_iff)
  moreover have "0 < \<bar>a\<bar> div \<bar>b\<bar> \<longleftrightarrow> \<bar>b\<bar> \<le> \<bar>a\<bar>"
    using pos by (rule pos_imp_zdiv_pos_iff)
  ultimately have q: "\<bar>a\<bar> div \<bar>b\<bar> = 0 \<longleftrightarrow> \<bar>a\<bar> < \<bar>b\<bar>"
    by linarith
  have "a sdiv b = 0 \<longleftrightarrow> a = 0 \<or> \<bar>a\<bar> div \<bar>b\<bar> = 0"
    using assms by (simp add: signed_divide_int_def sgn_eq_0_iff)
  with q pos show ?thesis by auto
qed

text \<open>
  Claim C10. When the master frequency is positive and the frequency of the channel is
  strictly greater, the truncating division gives \<open>ticks_in_adcycle = 0\<close> and every
  timestamp printed for the block is the timestamp of the block.
\<close>

theorem fast_channel_timestamps_collapse:
  assumes ready: "ad_setup fh slowheaders = Inr (gain, adfreq, ticks)"
      and master: "0 < sint (ADFrequency fh)"
      and faster: "sint (ADFrequency fh) < sint adfreq"
  shows "ticks = 0
       \<and> map ad_ticks (fst (ad_loop db buf gain ticks 0))
           = replicate (min (nat (sint (NumberOfWordsInWaveform db))) 256)
               (Some (sint (TimeStamp db)))"
proof -
  have "sint (ADFrequency fh) sdiv sint adfreq = 0"
    using master faster by (intro sdiv_small) simp_all
  then have t: "ticks = 0"
    by (simp add: ad_setup_Inr(3) [OF ready] c_div_def)
  have "ad_ticks \<circ> ad_line db buf gain 0 = (\<lambda>i. Some (sint (TimeStamp db)))"
    by (simp add: fun_eq_iff ad_line_def)
  then show ?thesis
    by (simp add: t ad_loop_closed map_replicate_const)
qed

theorem fast_channel_timestamps_collapse_witness:
  "ad_setup fh_slow_clock slow_example = Inr (1, 20000, 0)
   \<and> map ad_ticks (fst (ad_loop (decode_db analog_file) (store (drop 16 analog_file) zero_buf) 1 0 0))
       = [Some 1000, Some 1000, Some 1000]"
proof -
  let ?db = "decode_db analog_file"
  let ?buf = "store (drop 16 analog_file) zero_buf"
  have ready: "ad_setup fh_slow_clock slow_example = Inr (1, 20000, 0)"
    by code_simp
  have m: "0 < sint (ADFrequency fh_slow_clock)" "sint (ADFrequency fh_slow_clock) < sint (20000 :: cint)"
    by code_simp+
  have v: "replicate (min (nat (sint (NumberOfWordsInWaveform ?db))) 256) (Some (sint (TimeStamp ?db)))
           = [Some 1000, Some 1000, Some 1000]"
    by code_simp
  from fast_channel_timestamps_collapse [OF ready m, of ?db ?buf]
  have "map ad_ticks (fst (ad_loop ?db ?buf 1 0 0))
      = replicate (min (nat (sint (NumberOfWordsInWaveform ?db))) 256) (Some (sint (TimeStamp ?db)))"
    by (rule conjunct2)
  from this v have "map ad_ticks (fst (ad_loop ?db ?buf 1 0 0)) = [Some 1000, Some 1000, Some 1000]"
    by (rule trans)
  with ready show ?thesis by (intro conjI)
qed

text \<open>
  Claim C4, as the program has it. For a block of type 5 and channel 0, sample 4 prints one
  (timestamp, voltage) pair for each index below \<^verbatim>\<open>db.NumberOfWordsInWaveform\<close> (none if
  that is negative, and no more than the 256 entries of \<open>buf\<close>), whatever
  \<^verbatim>\<open>db.NumberOfWaveforms\<close> and \<open>nbuf\<close> are: it takes the one waveform per A/D block of the
  head comment for granted and flags nothing. The number of pairs is the number of
  waveforms times the words per waveform when the number of waveforms is 1.
\<close>

theorem one_waveform_per_analog_block:
  assumes "Type db = PL_ADDataType" "matches (Channel db) 0"
  shows "ad_pairs (fst (sample4_loop gain ticks count first [(db, nbuf, buf)] r))
           = map (\<lambda>i. (sint (TimeStamp db + of_nat i * ticks), ad_voltage (buf_at buf i) gain))
               [0..<min (nat (sint (NumberOfWordsInWaveform db))) 256]
       \<and> length (ad_pairs (fst (sample4_loop gain ticks count first [(db, nbuf, buf)] r)))
           = min (nat (sint (NumberOfWordsInWaveform db))) 256
       \<and> (sint (NumberOfWaveforms db) = 1 \<longrightarrow> 0 \<le> sint (NumberOfWordsInWaveform db)
            \<longrightarrow> sint (NumberOfWordsInWaveform db) \<le> 256
            \<longrightarrow> int (length (ad_pairs (fst (sample4_loop gain ticks count first [(db, nbuf, buf)] r))))
                  = sint (NumberOfWaveforms db) * sint (NumberOfWordsInWaveform db))"
proof -
  have p: "List.map_filter ad_pair (map (ad_line db buf gain ticks) xs)
         = map (\<lambda>i. (sint (TimeStamp db + of_nat i * ticks), ad_voltage (buf_at buf i) gain)) xs" for xs
    by (induction xs) (simp_all add: List.map_filter_simps ad_line_def)
  have app: "List.map_filter ad_pair (xs @ ys) = List.map_filter ad_pair xs @ List.map_filter ad_pair ys" for xs ys
    by (simp add: List.map_filter_def)
  have first: "ad_pairs (fst (sample4_loop gain ticks count first [(db, nbuf, buf)] r))
           = map (\<lambda>i. (sint (TimeStamp db + of_nat i * ticks), ad_voltage (buf_at buf i) gain))
               [0..<min (nat (sint (NumberOfWordsInWaveform db))) 256]"
    using assms
    by (simp add: ad_pairs_def ad_loop_closed Let_def List.map_filter_simps p
          app split: option.splits)
  show ?thesis
    unfolding first by simp
qed

theorem one_waveform_per_analog_block_witness:
  "Type (decode_db analog_file) = PL_ADDataType
   \<and> matches (Channel (decode_db analog_file)) 0
   \<and> sint (NumberOfWaveforms (decode_db analog_file)) = 1
   \<and> ad_pairs (fst (sample4_loop 1 2 1 (- 1)
         [(decode_db analog_file, 3, store (drop 16 analog_file) zero_buf)] None))
       = [(1000, 10), (1002, 0), (1004, - 10)]"
proof -
  let ?db = "decode_db analog_file"
  let ?buf = "store (drop 16 analog_file) zero_buf"
  have a: "Type ?db = PL_ADDataType" "matches (Channel ?db) 0"
    by code_simp+
  have b: "sint (NumberOfWaveforms ?db) = 1"
    by code_simp
  have v: "map (\<lambda>i. (sint (TimeStamp ?db + of_nat i * 2), ad_voltage (buf_at ?buf i) 1))
               [0..<min (nat (sint (NumberOfWordsInWaveform ?db))) 256]
           = [(1000, 10), (1002, 0), (1004, - 10)]"
    by code_simp
  from one_waveform_per_analog_block [OF a, of 1 2 1 "- 1" 3 ?buf None]
  have "ad_pairs (fst (sample4_loop 1 2 1 (- 1) [(?db, 3, ?buf)] None))
      = map (\<lambda>i. (sint (TimeStamp ?db + of_nat i * 2), ad_voltage (buf_at ?buf i) 1))
               [0..<min (nat (sint (NumberOfWordsInWaveform ?db))) 256]"
    by (rule conjunct1)
  from this v have "ad_pairs (fst (sample4_loop 1 2 1 (- 1) [(?db, 3, ?buf)] None))
      = [(1000, 10), (1002, 0), (1004, - 10)]"
    by (rule trans)
  with a b show ?thesis by (intro conjI)
qed

text \<open>
  The claim C4 as stated fails: for an A/D block with two waveforms of two words sample 4
  prints two pairs, not four, and nothing else.
\<close>

theorem two_waveforms_yield_one:
  "Type (decode_db two_waveform_file) = PL_ADDataType
   \<and> matches (Channel (decode_db two_waveform_file)) 0
   \<and> sint (NumberOfWaveforms (decode_db two_waveform_file))
       * sint (NumberOfWordsInWaveform (decode_db two_waveform_file)) = 4
   \<and> sample4 fh_example slow_example 0 two_waveform_file start_of_file zero_buf
       = ([FirstPointLine 1 1000, ADLine 1 (5 / 2048) 1000, ADLine 2 (5 / 1024) 1002], None)
   \<and> length (ad_pairs (fst (sample4 fh_example slow_example 0 two_waveform_file
                               start_of_file zero_buf))) = 2"
  by code_simp

section \<open>The samples on the example files\<close>

lemma sample2_on_spike_with_waveform:
  "sample2 0 spike_with_waveform start_of_file zero_buf
     = ([SpikeLine 1 9, WaveformLine [10, - 10, 5]], None)"
  by code_simp

lemma sample3_on_spikes:
  "sample3 0 (first_spike @ spike_with_waveform) start_of_file zero_buf = ([], None)"
  by code_simp

lemma sample4_on_analog_file:
  "sample4 fh_example slow_example 0 analog_file start_of_file zero_buf
     = ([FirstPointLine 1 1000, ADLine 4096 10 1000, ADLine 0 0 1002,
         ADLine (- 4096) (- 10) 1004], None)"
  by code_simp

text \<open>With a negative master frequency the division of C does not give 0 for a faster
  channel: \<^verbatim>\<open>-5 / 2\<close> is -2.\<close>

lemma c_div_negative_master: "sint (c_div (- 5) 2) = - 2"
  by (simp add: c_div_def signed_divide_int_def)

section \<open>The timestamp of a record\<close>

lemma or_as_sum:
  "push_bit 32 (h :: int) OR uint (t :: cint) = 2 ^ 32 * h + uint t"
proof -
  have "push_bit 32 h AND uint t = 0"
    by (auto simp: bit_eq_iff bit_simps dest: bit_imp_le_length)
  then have "push_bit 32 h + uint t = push_bit 32 h OR uint t"
    by (rule disjunctive_add_eq_or)
  then show ?thesis
    by (simp add: push_bit_eq_mult)
qed

lemma uint_by_sint:
  "uint (t :: cint) = (if sint t < 0 then sint t + 2 ^ 32 else sint t)"
proof -
  have u: "uint t = sint t mod 2 ^ 32"
    by (simp add: uint_sint take_bit_eq_mod)
  have lo: "- (2 ^ 31) \<le> sint t" using sint_ge [of t] by simp
  have hi: "sint t < 2 ^ 31" using sint_lt [of t] by simp
  show ?thesis
  proof (cases "sint t < 0")
    case True
    have "sint t mod 2 ^ 32 = (sint t + 2 ^ 32) mod 2 ^ 32" by simp
    also have "\<dots> = sint t + 2 ^ 32"
      using lo True by (intro mod_pos_pos_trivial) simp_all
    finally show ?thesis using True u by simp
  next
    case False
    then have "sint t mod 2 ^ 32 = sint t"
      using hi by (intro mod_pos_pos_trivial) simp_all
    with False u show ?thesis by simp
  qed
qed

lemma spec_timestamp40_sum:
  "spec_timestamp40 db
     = 2 ^ 32 * take_bit 8 (uint (UpperByteOf5ByteTimestamp db)) + uint (TimeStamp db)"
  by (simp add: spec_timestamp40_def or_as_sum)

lemma exposed_eq_spec_iff:
  "sint (TimeStamp db) = spec_timestamp40 db
     \<longleftrightarrow> take_bit 8 (UpperByteOf5ByteTimestamp db) = 0 \<and> 0 \<le> sint (TimeStamp db)"
proof -
  define h where "h = take_bit 8 (uint (UpperByteOf5ByteTimestamp db))"
  have h0: "0 \<le> h" by (simp add: h_def)
  have hz: "h = 0 \<longleftrightarrow> take_bit 8 (UpperByteOf5ByteTimestamp db) = 0"
    by (simp add: h_def unsigned_take_bit_eq [symmetric] unsigned_eq_0_iff)
  have sp: "spec_timestamp40 db = 4294967296 * h + uint (TimeStamp db)"
    by (simp add: spec_timestamp40_sum h_def)
  show ?thesis
  proof (cases "sint (TimeStamp db) < 0")
    case True
    then have "spec_timestamp40 db = 4294967296 * h + sint (TimeStamp db) + 4294967296"
      by (simp add: sp uint_by_sint)
    with h0 have "sint (TimeStamp db) < spec_timestamp40 db" by linarith
    with True show ?thesis by simp
  next
    case False
    then have "spec_timestamp40 db = 4294967296 * h + sint (TimeStamp db)"
      by (simp add: sp uint_by_sint)
    with False hz show ?thesis by auto
  qed
qed

text \<open>
  Claim C2, as the program has it. The timestamp printed for a record of sample 1 or 3 is
  \<^verbatim>\<open>db.TimeStamp\<close> alone, through \<^verbatim>\<open>%d\<close>: the low 32-bit word read as a signed integer.
  \<^verbatim>\<open>db.UpperByteOf5ByteTimestamp\<close> is never read: changing it changes no line of samples 1,
  3 and 4. The value printed is the 40-bit timestamp of the specification exactly when
  the upper byte is 0 and the low word is below \<open>2 ^ 31\<close>.
\<close>

theorem exposed_timestamp_is_signed_low_word:
  "sample1_loop count [(db, nbuf, buf)]
     = (if Type db = PL_SingleWFType \<and> matches (Channel db) 1 \<and> matches (Unit db) 1
        then [SpikeLine (sint count) (sint (TimeStamp db))] else [])
   \<and> sample3_loop count [(db, nbuf, buf)]
     = (if Type db = PL_ExtEventType \<and> matches (Channel db) 1
        then [EventLine (sint count) (sint (TimeStamp db))] else [])
   \<and> sample1_loop count [(db \<lparr> UpperByteOf5ByteTimestamp := u \<rparr>, nbuf, buf)]
     = sample1_loop count [(db, nbuf, buf)]
   \<and> sample3_loop count [(db \<lparr> UpperByteOf5ByteTimestamp := u \<rparr>, nbuf, buf)]
     = sample3_loop count [(db, nbuf, buf)]
   \<and> ad_loop (db \<lparr> UpperByteOf5ByteTimestamp := u \<rparr>) buf gain ticks 0
     = ad_loop db buf gain ticks 0
   \<and> (sint (TimeStamp db) = spec_timestamp40 db
        \<longleftrightarrow> take_bit 8 (UpperByteOf5ByteTimestamp db) = 0 \<and> 0 \<le> sint (TimeStamp db))"
  by (simp add: exposed_eq_spec_iff ad_loop_closed ad_line_def)

text \<open>
  The claim C2 as stated fails: for a spike whose upper timestamp byte is 1 and whose low
  word is \<open>0x80000000\<close>, sample 1 prints -2147483648 ticks, and the 40-bit timestamp is
  6442450944.
\<close>

theorem late_spike_timestamp:
  "sample1 late_spike start_of_file zero_buf = ([SpikeLine 1 (- 2147483648)], None)
   \<and> spec_timestamp40 (decode_db late_spike) = 6442450944"
  by code_simp

section \<open>The spike voltage and the decoder of the specification\<close>

text \<open>
  Claim C8. For every raw sample and every gain that is not 0, the spike voltage is the raw
  value times 3, divided by 2048 and by the gain; a gain of 0 is an error, not a value.
  For example, \<open>spikeVoltage 10 2 = 0.00732421875\<close>.
\<close>

theorem spike_voltage_formula:
  "(gain \<noteq> 0 \<longrightarrow> spikeVoltage raw gain = Inr (real_of_int raw * 3 / 2048 / real_of_int gain))
   \<and> spikeVoltage raw 0 = Inl MissingCalibration"
  by (simp add: spikeVoltage_def)

theorem spike_voltage_formula_witness:
  "(2 :: int) \<noteq> 0 \<and> spikeVoltage 10 2 = Inr 0.00732421875"
  using spike_voltage_formula [of 2 10] by simp

text \<open>What the program itself does with the unit of an event: nothing. The lines of sample 3
  are the same whatever the unit field holds.\<close>

lemma sample3_ignores_unit:
  "sample3_loop count [(db \<lparr> Unit := u \<rparr>, nbuf, buf)] = sample3_loop count [(db, nbuf, buf)]"
  by simp

text \<open>
  Claim C9. For every block of the event type: on the strobed channel 257 the record holds
  the raw unit field as its strobed value; on every other channel the record has no
  strobed value and holds nothing of the unit field: it is the record of the same block
  with unit 0.
\<close>

theorem strobed_value_only_on_strobed_channel:
  assumes "Type db = PL_ExtEventType"
  shows "(Channel db = PL_StrobedExtChannel
            \<longrightarrow> classify db payload
                  = EventRecord (spec_timestamp40 db) PL_StrobedExtChannel (Some (Unit db)))
       \<and> (Channel db \<noteq> PL_StrobedExtChannel
            \<longrightarrow> classify db payload = EventRecord (spec_timestamp40 db) (Channel db) None
              \<and> classify db payload = classify (db \<lparr> Unit := 0 \<rparr>) payload)"
  using assms
  by (simp add: classify_def spec_timestamp40_def PL_ExtEventType_def PL_SingleWFType_def)

theorem strobed_value_only_on_strobed_channel_witness:
  "Type strobed_event = PL_ExtEventType \<and> Channel strobed_event = PL_StrobedExtChannel
   \<and> classify strobed_event [] = EventRecord 100 257 (Some 42)
   \<and> Type plain_event = PL_ExtEventType \<and> Channel plain_event \<noteq> PL_StrobedExtChannel
   \<and> classify plain_event [] = EventRecord 100 2 None
   \<and> classify plain_event [] = classify (plain_event \<lparr> Unit := 0 \<rparr>) []"
proof -
  have s: "Type strobed_event = PL_ExtEventType" "Channel strobed_event = PL_StrobedExtChannel"
    by code_simp+
  have p: "Type plain_event = PL_ExtEventType" "Channel plain_event \<noteq> PL_StrobedExtChannel"
    by code_simp+
  have v: "EventRecord (spec_timestamp40 strobed_event) PL_StrobedExtChannel (Some (Unit strobed_event))
             = EventRecord 100 257 (Some 42)"
          "EventRecord (spec_timestamp40 plain_event) (Channel plain_event) None
             = EventRecord 100 2 None"
    by code_simp+
  from strobed_value_only_on_strobed_channel [OF s(1), of "[]"] s(2) v(1)
  have a: "classify strobed_event [] = EventRecord 100 257 (Some 42)"
    by simp
  from strobed_value_only_on_strobed_channel [OF p(1), of "[]"] p(2)
  have b0: "classify plain_event []
              = EventRecord (spec_timestamp40 plain_event) (Channel plain_event) None"
    and b2: "classify plain_event [] = classify (plain_event \<lparr> Unit := 0 \<rparr>) []"
    by blast+
  from b0 v(2) have b1: "classify plain_event [] = EventRecord 100 2 None"
    by (rule trans)
  note b = b1 b2
  from s p a b show ?thesis by (intro conjI)
qed

end
